theory Spec2Isabelle
  imports Main "HOL-Library.AList" "HOL-Library.Sublist"
begin

section \<open>Test fixtures (test/fixtures/index.js)\<close>

text \<open>
  A plain JavaScript object with string keys is an association list with distinct keys,
  in the order the engine enumerates its own keys. The assignment \<open>result[k] = v\<close>
  is \<open>AList.update k v result\<close>: an existing key keeps its place and gets the new
  value, a new key goes to the end.
\<close>

type_synonym path = string

type_synonym 'v obj = "(string \<times> 'v) list"

datatype fs_error = ENOENT path

text \<open>
  The runtime the fixtures run on: \<open>__dirname\<close>, \<open>fs.readFileSync(p, 'utf8')\<close>
  (a missing file throws), the list that \<open>getAllFilePaths\<close> resolves to
  (\<open>fs.walk\<close> of fs-extra, files only), \<open>path.join\<close>, \<open>path.resolve\<close> and
  \<open>String.prototype.replace\<close> with a regular expression (pattern source,
  replacement, subject).
\<close>

record runtime =
  dirname :: path
  readFileSync :: "path \<rightharpoonup> string"
  getAllFilePaths :: "path \<Rightarrow> path list"
  path_join :: "path list \<Rightarrow> path"
  path_resolve :: "path list \<Rightarrow> path"
  regex_replace :: "string \<Rightarrow> string \<Rightarrow> string \<Rightarrow> string"

text \<open>
  \<open>s.replace(pat, rep)\<close> with a string pattern: the first occurrence of \<open>pat\<close>
  is replaced (none of the replacement strings of the fixtures contains a dollar sign).
\<close>

fun replace_first :: "string \<Rightarrow> string \<Rightarrow> string \<Rightarrow> string" where
  "replace_first pat rep [] = (if pat = [] then rep else [])"
| "replace_first pat rep (c # cs) =
     (if prefix pat (c # cs) then rep @ drop (length pat) (c # cs)
      else c # replace_first pat rep cs)"

text \<open>
  \<open>mirrorPathsToContent(paths, options = {})\<close>, lines 42-49. The options object maps
  property names to functions; \<open>options.mapKey || ((x) => x)\<close> reads the property
  named \<open>mapKey\<close> and falls back to the identity when it is undefined. The
  reduction stops with the exception of \<open>readFileSync\<close> at the first missing file.
\<close>

definition option_mapKey :: "(string \<Rightarrow> string) obj \<Rightarrow> string \<Rightarrow> string" where
  "option_mapKey options =
     (case map_of options ''mapKey'' of None \<Rightarrow> (\<lambda>x. x) | Some f \<Rightarrow> f)"

fun mirror_reduce ::
  "(path \<rightharpoonup> string) \<Rightarrow> (string \<Rightarrow> string) \<Rightarrow> path list \<Rightarrow> string obj \<Rightarrow> fs_error + string obj"
where
  "mirror_reduce rd mapKey [] result = Inr result"
| "mirror_reduce rd mapKey (fullPath # rest) result =
     (case rd fullPath of
        None \<Rightarrow> Inl (ENOENT fullPath)
      | Some content \<Rightarrow>
          mirror_reduce rd mapKey rest (AList.update (mapKey fullPath) content result))"

definition mirrorPathsToContent ::
  "(path \<rightharpoonup> string) \<Rightarrow> path list \<Rightarrow> (string \<Rightarrow> string) obj \<Rightarrow> fs_error + string obj"
where
  "mirrorPathsToContent rd paths options =
     mirror_reduce rd (option_mapKey options) paths []"

text \<open>\<open>coreYarnFiles()\<close>, lines 55-61.\<close>

definition coreYarnFiles :: "runtime \<Rightarrow> fs_error + string obj" where
  "coreYarnFiles rt =
     mirrorPathsToContent (readFileSync rt)
       (map (\<lambda>p. path_resolve rt [dirname rt, ''../../'', p])
          [''lib/config/defaults.yml'', ''.babelrc'', ''package.json''])
       []"

text \<open>
  \<open>yarnNpmFilePaths()\<close>, lines 67-82, with the array of package names that
  \<open>getYarnPackageNames(yarnRootPath)\<close> returned as the argument \<open>npmModules\<close>.
\<close>

definition yarnNpmFilePaths :: "runtime \<Rightarrow> string list \<Rightarrow> path list" where
  "yarnNpmFilePaths rt npmModules =
     (let yarnRootPath = path_join rt [dirname rt, ''../../'']
      in foldl (\<lambda>allPaths m.
                  allPaths @ getAllFilePaths rt (path_join rt [yarnRootPath, ''node_modules'', m]))
           [] npmModules)"

text \<open>
  The three mirroring branches of \<open>mockSimpleSite\<close>, lines 89-114. The third one
  passes its function under the property name \<open>msapKey\<close>.
\<close>

definition simpleMocks :: "runtime \<Rightarrow> fs_error + string obj" where
  "simpleMocks rt =
     mirrorPathsToContent (readFileSync rt)
       (getAllFilePaths rt (path_join rt [dirname rt, ''simple'']))
       [(''mapKey'', \<lambda>currentPath. replace_first (dirname rt @ ''/'') '''' currentPath)]"

definition themeOneMocks :: "runtime \<Rightarrow> fs_error + string obj" where
  "themeOneMocks rt =
     mirrorPathsToContent (readFileSync rt)
       (getAllFilePaths rt (path_join rt [dirname rt, ''themes/one'']))
       [(''mapKey'', \<lambda>currentPath.
           replace_first (path_join rt [dirname rt, ''themes/one'']) ''simple/_themes/one''
             currentPath)]"

definition npmMocks :: "runtime \<Rightarrow> path list \<Rightarrow> fs_error + string obj" where
  "npmMocks rt npmPaths =
     mirrorPathsToContent (readFileSync rt) npmPaths
       [(''msapKey'', \<lambda>currentPath.
           regex_replace rt ''(.*)node_modules'' ''node_modules'' currentPath)]"

text \<open>
  Object spread \<open>{...a, ...b}\<close>: the own properties of each source are assigned in
  order, a later source overriding an earlier one.
\<close>

definition spread :: "'v obj \<Rightarrow> 'v obj \<Rightarrow> 'v obj" where
  "spread target src = foldl (\<lambda>acc (k, v). AList.update k v acc) target src"

text \<open>
  \<open>mockSimpleSite()\<close>, lines 88-126: the object it returns (the same object is
  handed to \<open>mockFs\<close>, which is outside the model).
\<close>

definition mockSimpleSite :: "runtime \<Rightarrow> string list \<Rightarrow> fs_error + string obj" where
  "mockSimpleSite rt npmModules =
     (case simpleMocks rt of
        Inl e \<Rightarrow> Inl e
      | Inr mocks \<Rightarrow>
         (case themeOneMocks rt of
            Inl e \<Rightarrow> Inl e
          | Inr themeOne \<Rightarrow>
             (case npmMocks rt (yarnNpmFilePaths rt npmModules) of
                Inl e \<Rightarrow> Inl e
              | Inr npm \<Rightarrow>
                 (case coreYarnFiles rt of
                    Inl e \<Rightarrow> Inl e
                  | Inr core \<Rightarrow>
                      Inr (spread (spread (spread (spread [] mocks) themeOne) core) npm)))))"

text \<open>
  \<open>filterOnlyFiles(files)\<close>, lines 162-169. \<open>filePath.match(/\.(html)/)\<close> is
  truthy when the text \<open>.html\<close> stands somewhere in \<open>filePath\<close>; lodash's
  \<open>reduce\<close> visits the own properties of \<open>files\<close> in order.
\<close>

fun match_html :: "string \<Rightarrow> bool" where
  "match_html [] = False"
| "match_html (c # cs) = (prefix ''.html'' (c # cs) \<or> match_html cs)"

definition filterOnlyFiles :: "string obj \<Rightarrow> string obj" where
  "filterOnlyFiles files =
     foldl (\<lambda>result (filePath, fileContent).
              if match_html filePath then AList.update filePath fileContent result
              else result)
       [] files"

text \<open>
  A small file tree for concrete runs: one page, one theme file, the three core files
  and one file of the npm module \<open>yarn-excerpt\<close>. \<open>regex_replace\<close> gives what
  \<open>/(.*)node_modules/\<close> gives on that file's path.
\<close>

definition example_runtime :: runtime where
  "example_runtime =
     \<lparr>dirname = ''/proj/test/fixtures'',
      readFileSync = map_of
        [(''/proj/test/fixtures/simple/index.md'', ''# Home''),
         (''/proj/test/fixtures/themes/one/page.html'', ''<html>''),
         (''/proj/lib/config/defaults.yml'', ''path: ./''),
         (''/proj/.babelrc'', ''{}''),
         (''/proj/package.json'', ''{}''),
         (''/proj/node_modules/yarn-excerpt/index.js'', ''exports.x = 1'')],
      getAllFilePaths = (\<lambda>d.
        if d = ''/proj/test/fixtures/simple'' then [''/proj/test/fixtures/simple/index.md'']
        else if d = ''/proj/test/fixtures/themes/one''
          then [''/proj/test/fixtures/themes/one/page.html'']
        else if d = ''/proj/node_modules/yarn-excerpt''
          then [''/proj/node_modules/yarn-excerpt/index.js'']
        else []),
      path_join = (\<lambda>parts.
        if parts = [''/proj/test/fixtures'', ''../../''] then ''/proj/''
        else if parts = [''/proj/'', ''node_modules'', ''yarn-excerpt'']
          then ''/proj/node_modules/yarn-excerpt''
        else if parts = [''/proj/test/fixtures'', ''simple''] then ''/proj/test/fixtures/simple''
        else if parts = [''/proj/test/fixtures'', ''themes/one'']
          then ''/proj/test/fixtures/themes/one''
        else []),
      path_resolve = (\<lambda>parts. ''/proj/'' @ last parts),
      regex_replace = (\<lambda>pat rep subject.
        if subject = ''/proj/node_modules/yarn-excerpt/index.js''
        then ''node_modules/yarn-excerpt/index.js'' else subject)\<rparr>"

section \<open>Plugin package names (lib/json.js)\<close>

text \<open>
  Modelled from the spec: \<open>getYarnPackageNames\<close> of \<open>lib/json.js\<close> is not among
  the source files (only its test and its caller are). The manifest holds two dependency
  lists of names with version strings, each of which may be missing; a missing list
  counts as empty, and the version strings are dropped.
\<close>

record manifest =
  dependencies :: "(string \<times> string) list option"
  devDependencies :: "(string \<times> string) list option"

definition dependency_names :: "(string \<times> string) list option \<Rightarrow> string list" where
  "dependency_names deps = (case deps of None \<Rightarrow> [] | Some kvs \<Rightarrow> map fst kvs)"

text \<open>
  Modelled from the spec: a name matches the convention when it starts with the prefix
  and is strictly longer than it (\<open>N.startsWith(P)\<close> and \<open>N.length > P.length\<close>).
\<close>

definition matches_convention :: "string \<Rightarrow> string \<Rightarrow> bool" where
  "matches_convention P N = (prefix P N \<and> length P < length N)"

text \<open>
  Modelled from the spec: the resolver returns the set of the names of either list that
  match the convention; the prefix is an argument, and for this generator it is
  \<open>yarn-\<close>.
\<close>

definition resolvePlugins :: "string \<Rightarrow> manifest \<Rightarrow> string set" where
  "resolvePlugins P M =
     set (filter (matches_convention P)
            (dependency_names (dependencies M) @ dependency_names (devDependencies M)))"

definition getYarnPackageNames :: "manifest \<Rightarrow> string set" where
  "getYarnPackageNames M = resolvePlugins ''yarn-'' M"

section \<open>The watch command (bin/watch.js)\<close>

text \<open>
  The paths of \<open>lib/config\<close> that the command reads: \<open>config.path.source\<close>,
  \<open>config.path.plugins\<close>, \<open>config.path.themes\<close>, \<open>config.path.destination\<close>.
\<close>

record config =
  source :: path
  plugins :: path
  themes :: path
  destination :: path

text \<open>
  The two chokidar watchers (\<open>watcher\<close> and \<open>themeWatcher\<close>), the six function
  expressions handed to \<open>.on\<close> (lines 38, 40, 48, 56, 70 and 72), the methods of the
  site object \<open>yarn\<close> that return a promise, and the callbacks attached to those
  promises: \<open>.catch\<close> of lines 22-25, \<open>.then\<close> of lines 43-45, 51-53 and 59-61,
  \<open>.then\<close> of lines 76-78, and \<open>Returned\<close> for the promise of \<open>yarn.build()\<close>
  that the callback of line 77 returns (nothing else is attached to it).
\<close>

datatype session = Source | Theme

datatype listener =
  SourceReady | SourceChange | SourceAdd | SourceUnlink | ThemeReady | ThemeChange

datatype site_call =
  ReadFiles | FileChanged path | FileAdded path | FileRemoved path | ReadTheme | Build

datatype reaction = CatchLogRethrow | ThenLogDone | ThenBuild | Returned

datatype outcome = Fulfilled | Rejected

text \<open>
  What the command does, in the order it does it: the server started by
  \<open>require('./serve')()\<close>, \<open>Render.configureTemplate\<close>, a call of a site method
  (with the number of the promise it returned), a line of \<open>logger.info\<close>, the
  \<open>console.log(e.stack)\<close> of line 23, a promise of the site settling, and a rejection
  that reaches no handler (the promise derived by \<open>.then\<close> or \<open>.catch\<close> is
  rejected and nothing is attached to it).
\<close>

datatype obs =
  Served
  | TemplateConfigured
  | Called nat site_call
  | Info string
  | ConsoleLog nat
  | Settled nat outcome
  | Unhandled nat

text \<open>
  The state of the process: the watchers created by \<open>chokidar.watch\<close> (watched
  paths and the \<open>ignored\<close> option), the listeners registered with \<open>.on\<close> in
  registration order (event names are strings, as in an EventEmitter), the promises
  of the site that have not settled yet with the callback attached to each, the number
  of the next promise, and the trace.
\<close>

record state =
  watchers :: "(session \<times> path list \<times> path list) list"
  listeners :: "(session \<times> string \<times> listener) list"
  pending :: "(nat \<times> site_call \<times> reaction) list"
  next_id :: nat
  trace :: "obs list"

definition info :: "string \<Rightarrow> state \<Rightarrow> state" where
  "info msg st = st\<lparr>trace := trace st @ [Info msg]\<rparr>"

definition console_log :: "nat \<Rightarrow> state \<Rightarrow> state" where
  "console_log k st = st\<lparr>trace := trace st @ [ConsoleLog k]\<rparr>"

definition unhandled :: "nat \<Rightarrow> state \<Rightarrow> state" where
  "unhandled k st = st\<lparr>trace := trace st @ [Unhandled k]\<rparr>"

definition call :: "site_call \<Rightarrow> reaction \<Rightarrow> state \<Rightarrow> state" where
  "call c r st =
     st\<lparr>pending := pending st @ [(next_id st, c, r)],
        next_id := Suc (next_id st),
        trace := trace st @ [Called (next_id st) c]\<rparr>"

definition watch :: "session \<Rightarrow> path list \<Rightarrow> path list \<Rightarrow> state \<Rightarrow> state" where
  "watch s paths ign st = st\<lparr>watchers := watchers st @ [(s, paths, ign)]\<rparr>"

definition on :: "session \<Rightarrow> string \<Rightarrow> listener \<Rightarrow> state \<Rightarrow> state" where
  "on s ev l st = st\<lparr>listeners := listeners st @ [(s, ev, l)]\<rparr>"

text \<open>The bodies of the six listeners, lines 38-63 and 70-80.\<close>

fun run_listener :: "listener \<Rightarrow> path \<Rightarrow> state \<Rightarrow> state" where
  "run_listener SourceReady p st =
     (let st = on Source ''change'' SourceChange st;
          st = on Source ''add'' SourceAdd st;
          st = on Source ''unlink'' SourceUnlink st
      in st)"
| "run_listener SourceChange p st =
     (let st = info (''File changed at: '' @ p) st;
          st = info ''Rebuilding...'' st
      in call (FileChanged p) ThenLogDone st)"
| "run_listener SourceAdd p st =
     (let st = info (''File added at: '' @ p) st;
          st = info ''Rebuilding...'' st
      in call (FileAdded p) ThenLogDone st)"
| "run_listener SourceUnlink p st =
     (let st = info (''File removed at: '' @ p) st;
          st = info ''Rebuilding...'' st
      in call (FileRemoved p) ThenLogDone st)"
| "run_listener ThemeReady p st = on Theme ''change'' ThemeChange st"
| "run_listener ThemeChange p st =
     (let st = info (''Theme file changed at: '' @ p) st;
          st = info ''Rebuilding...'' st
      in call ReadTheme ThenBuild st)"

text \<open>
  \<open>emitter.emit(ev, p)\<close>: the listeners registered for the event when the emission
  starts are called in registration order.
\<close>

definition registered :: "state \<Rightarrow> session \<Rightarrow> string \<Rightarrow> listener list" where
  "registered st s ev = map (snd \<circ> snd) (filter (\<lambda>e. fst e = s \<and> fst (snd e) = ev) (listeners st))"

definition emit :: "session \<Rightarrow> string \<Rightarrow> path \<Rightarrow> state \<Rightarrow> state" where
  "emit s ev p st = fold (\<lambda>l. run_listener l p) (registered st s ev) st"

text \<open>
  A promise of the site settles and the callback attached to it reacts. A \<open>.then\<close>
  callback runs on fulfilment only and a \<open>.catch\<close> callback on rejection only; the
  callback of lines 22-25 logs and throws again.
\<close>

fun react :: "reaction \<Rightarrow> nat \<Rightarrow> outcome \<Rightarrow> state \<Rightarrow> state" where
  "react CatchLogRethrow k Fulfilled st = st"
| "react CatchLogRethrow k Rejected st = unhandled k (console_log k st)"
| "react ThenLogDone k Fulfilled st = info (CHR 0x09 # ''done!'') st"
| "react ThenLogDone k Rejected st = unhandled k st"
| "react ThenBuild k Fulfilled st = call Build Returned st"
| "react ThenBuild k Rejected st = unhandled k st"
| "react Returned k Fulfilled st = st"
| "react Returned k Rejected st = unhandled k st"

definition settle :: "nat \<Rightarrow> outcome \<Rightarrow> state \<Rightarrow> state" where
  "settle k out st =
     (case map_of (pending st) k of
        None \<Rightarrow> st
      | Some (c, r) \<Rightarrow>
          react r k out
            (st\<lparr>pending := filter (\<lambda>e. fst e \<noteq> k) (pending st),
                trace := trace st @ [Settled k out]\<rparr>))"

text \<open>
  The body of \<open>module.exports\<close>, lines 4-81: everything it does before it returns.
  The promise of \<open>yarn.readFiles()\<close> is not awaited.
\<close>

definition startup :: "config \<Rightarrow> state" where
  "startup cfg =
     (let st = \<lparr>watchers = [], listeners = [], pending = [], next_id = 0,
                 trace = [Served, TemplateConfigured]\<rparr>;
          st = call ReadFiles CatchLogRethrow st;
          st = watch Source [source cfg] [plugins cfg, themes cfg, destination cfg] st;
          st = on Source ''ready'' SourceReady st;
          st = watch Theme [themes cfg] [] st;
          st = on Theme ''ready'' ThemeReady st
      in st)"

text \<open>
  What happens after \<open>module.exports\<close> has returned: a watcher emits an event, or a
  promise of the site settles. The path of a \<open>ready\<close> event is not used.
\<close>

datatype input = Emit session string path | Settle nat outcome

fun step :: "input \<Rightarrow> state \<Rightarrow> state" where
  "step (Emit s ev p) st = emit s ev p st"
| "step (Settle k out) st = settle k out st"

definition run :: "state \<Rightarrow> input list \<Rightarrow> state" where
  "run st ins = fold step ins st"

text \<open>
  The observations a step adds to the trace, the site methods called among them, and
  how often a session has emitted \<open>ready\<close> in a list of inputs.
\<close>

definition effects :: "input \<Rightarrow> state \<Rightarrow> obs list" where
  "effects i st = drop (length (trace st)) (trace (step i st))"

fun calls_of :: "obs list \<Rightarrow> site_call list" where
  "calls_of [] = []"
| "calls_of (Called k c # t) = c # calls_of t"
| "calls_of (x # t) = calls_of t"

definition invoked :: "input \<Rightarrow> state \<Rightarrow> site_call list" where
  "invoked i st = calls_of (effects i st)"

fun is_ready :: "session \<Rightarrow> input \<Rightarrow> bool" where
  "is_ready s (Emit s' ev p) = (s' = s \<and> ev = ''ready'')"
| "is_ready s (Settle k out) = False"

definition ready_count :: "session \<Rightarrow> input list \<Rightarrow> nat" where
  "ready_count s ins = length (filter (is_ready s) ins)"

fun settles :: "nat \<Rightarrow> input \<Rightarrow> bool" where
  "settles k (Settle k' out) = (k' = k)"
| "settles k (Emit s ev p) = False"

text \<open>
  The listener of each session for \<open>ready\<close>, the listener that a \<open>ready\<close>
  listener registers for an event name (lines 40, 48, 56 and 72), and the registrations
  an input causes.
\<close>

fun ready_listener :: "session \<Rightarrow> listener" where
  "ready_listener Source = SourceReady"
| "ready_listener Theme = ThemeReady"

fun handler_of :: "session \<Rightarrow> string \<Rightarrow> listener option" where
  "handler_of Source ev =
     (if ev = ''change'' then Some SourceChange
      else if ev = ''add'' then Some SourceAdd
      else if ev = ''unlink'' then Some SourceUnlink
      else None)"
| "handler_of Theme ev = (if ev = ''change'' then Some ThemeChange else None)"

fun added :: "input \<Rightarrow> (session \<times> string \<times> listener) list" where
  "added (Emit Source ev p) =
     (if ev = ''ready''
      then [(Source, ''change'', SourceChange), (Source, ''add'', SourceAdd),
            (Source, ''unlink'', SourceUnlink)]
      else [])"
| "added (Emit Theme ev p) =
     (if ev = ''ready'' then [(Theme, ''change'', ThemeChange)] else [])"
| "added (Settle k out) = []"

definition base :: "(session \<times> string \<times> listener) list" where
  "base = [(Source, ''ready'', SourceReady), (Theme, ''ready'', ThemeReady)]"

definition sel :: "session \<Rightarrow> string \<Rightarrow> (session \<times> string \<times> listener) list \<Rightarrow> listener list" where
  "sel s ev ls = map (snd \<circ> snd) (filter (\<lambda>e. fst e = s \<and> fst (snd e) = ev) ls)"

text \<open>
  Well-formed pending promises: the number of a promise is below the next number, a
  promise with the callback of line 76 came from \<open>readTheme\<close>, one with the callback
  of line 22 came from \<open>readFiles\<close>, and its call is in the trace. A trace is in
  order when every call of \<open>build\<close> stands right after the fulfilment of a promise
  that an earlier call of \<open>readTheme\<close> returned.
\<close>

definition wf_entry :: "nat \<Rightarrow> obs list \<Rightarrow> nat \<times> site_call \<times> reaction \<Rightarrow> bool" where
  "wf_entry n t e =
     (fst e < n
      \<and> (snd (snd e) = ThenBuild \<longrightarrow> fst (snd e) = ReadTheme)
      \<and> (snd (snd e) = CatchLogRethrow \<longrightarrow> fst (snd e) = ReadFiles)
      \<and> Called (fst e) (fst (snd e)) \<in> set t)"

definition build_after_theme :: "obs list \<Rightarrow> bool" where
  "build_after_theme t =
     (\<forall>pre k post. t = pre @ Called k Build # post \<longrightarrow>
        (\<exists>pre' j. pre = pre' @ [Settled j Fulfilled] \<and> Called j ReadTheme \<in> set pre'))"

definition good :: "state \<Rightarrow> bool" where
  "good st = ((\<forall>e \<in> set (pending st). wf_entry (next_id st) (trace st) e)
              \<and> build_after_theme (trace st))"

text \<open>A configuration for concrete runs.\<close>

definition example_config :: config where
  "example_config =
     \<lparr>source = ''/proj/src'', plugins = ''/proj/src/_plugins'',
      themes = ''/proj/src/_themes'', destination = ''/proj/src/_site''\<rparr>"

section \<open>The ignore rule of the source watcher\<close>

text \<open>
  Modelled from the spec: the matching of an event's path against the \<open>ignored\<close>
  option happens inside the chokidar library, which is not among the source files;
  \<open>watch.js\<close> only hands the three directories to \<open>chokidar.watch\<close> (lines
  27-35) and filters nothing itself. A path is under an ignored root when it is equal
  to the root or continues it after a path separator.
\<close>

definition nested_under :: "path \<Rightarrow> path \<Rightarrow> bool" where
  "nested_under root p = (p = root \<or> prefix (root @ ''/'') p)"

definition is_ignored :: "path list \<Rightarrow> path \<Rightarrow> bool" where
  "is_ignored roots p = list_ex (\<lambda>root. nested_under root p) roots"

text \<open>
  Modelled from the spec: a watch session surfaces no event for a path under one of its
  ignored roots; every other event is emitted to the listeners of the session.
\<close>

definition deliver :: "session \<Rightarrow> string \<Rightarrow> path \<Rightarrow> state \<Rightarrow> state" where
  "deliver s ev p st =
     (case map_of (watchers st) s of
        None \<Rightarrow> st
      | Some (paths, ign) \<Rightarrow> if is_ignored ign p then st else emit s ev p st)"

section \<open>Properties of the fixtures\<close>

lemma match_html_sublist: "match_html p = sublist ''.html'' p"
  by (induction p) (simp_all add: sublist_Cons_right)

lemma update_fresh: "k \<notin> fst ` set al \<Longrightarrow> AList.update k v al = al @ [(k, v)]"
  by (induction al) auto

lemma filter_fold_distinct:
  "distinct (map fst (acc @ files)) \<Longrightarrow>
   foldl (\<lambda>result (filePath, fileContent).
            if match_html filePath then AList.update filePath fileContent result
            else result)
     acc files
   = acc @ filter (\<lambda>(p, c). match_html p) files"
proof (induction files arbitrary: acc)
  case Nil
  then show ?case by simp
next
  case (Cons kv files)
  obtain k v where kv: "kv = (k, v)" by (cases kv)
  from Cons.prems kv have fresh: "k \<notin> fst ` set acc"
    by auto
  show ?case
  proof (cases "match_html k")
    case True
    from Cons.prems kv have "distinct (map fst ((acc @ [(k, v)]) @ files))"
      by auto
    from Cons.IH [OF this] True fresh kv show ?thesis
      by (simp add: update_fresh)
  next
    case False
    from Cons.prems kv have "distinct (map fst (acc @ files))"
      by auto
    from Cons.IH [OF this] False kv show ?thesis
      by simp
  qed
qed

text \<open>
  C10. For every object \<open>files\<close> (its keys are distinct, as the keys of an object
  are), \<open>filterOnlyFiles\<close> returns exactly the entries whose key contains the text
  \<open>.html\<close>, with their values; a key that ends in \<open>.json\<close> and does not contain
  \<open>.html\<close> is not a key of the result.
\<close>

theorem filterOnlyFiles_html_only:
  assumes "distinct (map fst files)"
  shows "filterOnlyFiles files = filter (\<lambda>(p, c). sublist ''.html'' p) files
         \<and> (suffix ''.json'' p \<and> \<not> sublist ''.html'' p
              \<longrightarrow> map_of (filterOnlyFiles files) p = None)"
proof -
  from assms have "distinct (map fst ([] @ files))" by simp
  from filter_fold_distinct [OF this]
  have eq: "filterOnlyFiles files = filter (\<lambda>(p, c). sublist ''.html'' p) files"
    by (simp add: filterOnlyFiles_def match_html_sublist)
  have "suffix ''.json'' p \<and> \<not> sublist ''.html'' p
           \<longrightarrow> map_of (filterOnlyFiles files) p = None"
    unfolding eq by (auto simp: map_of_eq_None_iff)
  with eq show ?thesis by simp
qed

theorem filterOnlyFiles_html_only_witness:
  "filterOnlyFiles
     [(''index.html'', ''<h1>''), (''feed.json'', ''{}''), (''about.html.bak'', ''old'')]
   = [(''index.html'', ''<h1>''), (''about.html.bak'', ''old'')]
   \<and> map_of (filterOnlyFiles
        [(''index.html'', ''<h1>''), (''feed.json'', ''{}''), (''about.html.bak'', ''old'')])
        ''feed.json'' = None"
proof -
  have d: "distinct (map fst
     [(''index.html'', ''<h1>''), (''feed.json'', ''{}''), (''about.html.bak'', ''old'')])"
    by simp
  have j: "suffix ''.json'' ''feed.json'' \<and> \<not> sublist ''.html'' ''feed.json''"
    by (simp add: suffix_to_prefix sublist_Cons_right)
  from filterOnlyFiles_html_only [OF d, of "''feed.json''"] j
  show ?thesis
    by (simp add: sublist_Cons_right)
qed

lemma option_mapKey_msapKey: "option_mapKey [(''msapKey'', f)] = (\<lambda>x. x)"
  by (simp add: option_mapKey_def)

lemma option_mapKey_empty: "option_mapKey [] = (\<lambda>x. x)"
  by (simp add: option_mapKey_def)

lemma mirror_reduce_identity:
  assumes "mirror_reduce rd (\<lambda>x. x) paths acc = Inr res" "distinct (map fst acc)"
  shows "fst ` set res = fst ` set acc \<union> set paths
       \<and> (\<forall>p \<in> set paths. map_of res p = rd p)
       \<and> distinct (map fst res)"
  using assms
proof (induction paths arbitrary: acc)
  case Nil
  then show ?case by simp
next
  case (Cons q paths)
  from Cons.prems(1) obtain content where c: "rd q = Some content"
    by (cases "rd q") simp_all
  with Cons.prems(1) have r: "mirror_reduce rd (\<lambda>x. x) paths (AList.update q content acc) = Inr res"
    by simp
  from Cons.prems(2) have d: "distinct (map fst (AList.update q content acc))"
    by (simp add: distinct_update)
  from Cons.IH [OF r d] have ih:
    "fst ` set res = fst ` set (AList.update q content acc) \<union> set paths"
    "\<forall>p \<in> set paths. map_of res p = rd p" "distinct (map fst res)"
    by simp_all
  have keys: "fst ` set res = fst ` set acc \<union> set (q # paths)"
    using ih(1) by (auto simp: dom_update)
  have "map_of res q = rd q"
  proof (cases "q \<in> set paths")
    case True
    with ih(2) show ?thesis by blast
  next
    case False
    have "mirror_reduce rd (\<lambda>x. x) paths a = Inr b \<Longrightarrow> q \<notin> set paths \<Longrightarrow>
          map_of b q = map_of a q" for a b
      by (induction paths arbitrary: a) (auto simp: update_conv' split: option.splits)
    from this [OF r False] c show ?thesis by (simp add: update_conv')
  qed
  with ih keys show ?case by simp
qed

lemma map_of_rev_distinct: "distinct (map fst xs) \<Longrightarrow> map_of (rev xs) = map_of xs"
proof -
  assume d: "distinct (map fst xs)"
  then have "distinct (map fst (rev xs))" by (simp add: rev_map [symmetric])
  with d show ?thesis by (simp add: map_of_inject_set)
qed

lemma map_of_spread:
  "map_of (spread target src) = map_of target ++ map_of (rev src)"
  unfolding spread_def
proof (induction src arbitrary: target)
  case Nil
  then show ?case by simp
next
  case (Cons kv src)
  obtain k v where "kv = (k, v)" by (cases kv)
  with Cons [of "AList.update k v target"] show ?case
    by (simp add: update_conv' map_add_upd_left fun_eq_iff map_add_def split: option.splits)
qed

text \<open>
  C9. In \<open>mockSimpleSite\<close> the branch for the files of the npm modules passes its key
  function under the property name \<open>msapKey\<close>, so \<open>mirrorPathsToContent\<close> uses
  the identity: the branch returns what a call with no options returns; when it
  returns an object, the keys of the object are exactly the npm file paths themselves,
  each with the content of its file; and in the object that \<open>mockSimpleSite\<close>
  returns every npm file path is a key with that content. The replacement of the
  prefix up to \<open>node_modules\<close> is never applied.
\<close>

theorem npmMocks_keys_unmapped:
  "npmMocks rt npmPaths = mirrorPathsToContent (readFileSync rt) npmPaths []
   \<and> (npmMocks rt npmPaths = Inr mocks \<longrightarrow>
        fst ` set mocks = set npmPaths
        \<and> (\<forall>p \<in> set npmPaths. map_of mocks p = readFileSync rt p))
   \<and> (mockSimpleSite rt npmModules = Inr allMocks \<longrightarrow>
        (\<forall>p \<in> set (yarnNpmFilePaths rt npmModules). map_of allMocks p = readFileSync rt p))"
proof -
  have 1: "npmMocks rt paths = mirrorPathsToContent (readFileSync rt) paths []" for paths
    by (simp add: npmMocks_def mirrorPathsToContent_def option_mapKey_msapKey option_mapKey_empty)
  have 2: "fst ` set m = set paths \<and> (\<forall>p \<in> set paths. map_of m p = readFileSync rt p)
           \<and> distinct (map fst m)"
    if "npmMocks rt paths = Inr m" for paths m
  proof -
    from that have "mirror_reduce (readFileSync rt) (\<lambda>x. x) paths [] = Inr m"
      by (simp add: npmMocks_def mirrorPathsToContent_def option_mapKey_msapKey)
    from mirror_reduce_identity [OF this] show ?thesis by simp
  qed
  have 3: "\<forall>p \<in> set (yarnNpmFilePaths rt npmModules). map_of allMocks p = readFileSync rt p"
    if m: "mockSimpleSite rt npmModules = Inr allMocks"
  proof
    fix p assume p: "p \<in> set (yarnNpmFilePaths rt npmModules)"
    from m obtain mocks themeOne core npm where
      n: "npmMocks rt (yarnNpmFilePaths rt npmModules) = Inr npm"
      and a: "allMocks = spread (spread (spread (spread [] mocks) themeOne) core) npm"
      by (auto simp: mockSimpleSite_def split: sum.splits)
    from 2 [OF n] p have v: "map_of npm p = readFileSync rt p"
      and k: "p \<in> fst ` set npm" and d: "distinct (map fst npm)"
      by auto
    from k have "map_of npm p \<noteq> None"
      by (simp only: map_of_eq_None_iff not_not)
    with v obtain content where c: "readFileSync rt p = Some content"
      by (cases "readFileSync rt p") auto
    from d v c have "map_of (rev npm) p = Some content"
      by (simp add: map_of_rev_distinct)
    with c a show "map_of allMocks p = readFileSync rt p"
      by (simp add: map_of_spread map_add_def)
  qed
  from 1 2 3 show ?thesis by blast
qed

theorem npmMocks_keys_unmapped_witness:
  "npmMocks example_runtime [''/proj/node_modules/yarn-excerpt/index.js'']
     = Inr [(''/proj/node_modules/yarn-excerpt/index.js'', ''exports.x = 1'')]
   \<and> mockSimpleSite example_runtime [''yarn-excerpt'']
     = Inr [(''simple/index.md'', ''# Home''),
            (''simple/_themes/one/page.html'', ''<html>''),
            (''/proj/lib/config/defaults.yml'', ''path: ./''),
            (''/proj/.babelrc'', ''{}''),
            (''/proj/package.json'', ''{}''),
            (''/proj/node_modules/yarn-excerpt/index.js'', ''exports.x = 1'')]
   \<and> yarnNpmFilePaths example_runtime [''yarn-excerpt'']
     = [''/proj/node_modules/yarn-excerpt/index.js'']
   \<and> regex_replace example_runtime ''(.*)node_modules'' ''node_modules''
       ''/proj/node_modules/yarn-excerpt/index.js'' = ''node_modules/yarn-excerpt/index.js''"
proof -
  have y: "yarnNpmFilePaths example_runtime [''yarn-excerpt'']
     = [''/proj/node_modules/yarn-excerpt/index.js'']"
    by (simp add: yarnNpmFilePaths_def example_runtime_def)
  have n: "npmMocks example_runtime [''/proj/node_modules/yarn-excerpt/index.js'']
     = Inr [(''/proj/node_modules/yarn-excerpt/index.js'', ''exports.x = 1'')]"
    by (simp add: npmMocks_def mirrorPathsToContent_def option_mapKey_def example_runtime_def)
  have m: "mockSimpleSite example_runtime [''yarn-excerpt'']
     = Inr [(''simple/index.md'', ''# Home''),
            (''simple/_themes/one/page.html'', ''<html>''),
            (''/proj/lib/config/defaults.yml'', ''path: ./''),
            (''/proj/.babelrc'', ''{}''),
            (''/proj/package.json'', ''{}''),
            (''/proj/node_modules/yarn-excerpt/index.js'', ''exports.x = 1'')]"
    unfolding mockSimpleSite_def y n
    by (simp add: simpleMocks_def themeOneMocks_def coreYarnFiles_def
          mirrorPathsToContent_def option_mapKey_def example_runtime_def spread_def)
  have r: "regex_replace example_runtime ''(.*)node_modules'' ''node_modules''
       ''/proj/node_modules/yarn-excerpt/index.js'' = ''node_modules/yarn-excerpt/index.js''"
    by (simp add: example_runtime_def)
  from npmMocks_keys_unmapped [where rt = example_runtime
      and npmPaths = "[''/proj/node_modules/yarn-excerpt/index.js'']"
      and npmModules = "[''yarn-excerpt'']"] y n m r
  show ?thesis by simp
qed

section \<open>Properties of the package resolver\<close>

text \<open>
  C4. For every name \<open>N\<close>, prefix \<open>P\<close> and manifest \<open>M\<close>: \<open>N\<close> is in the
  resolver's result exactly when it is in the runtime or the development dependency
  list, starts with \<open>P\<close> and is strictly longer than \<open>P\<close>; the bare prefix is
  never in the result; and for the runtime list yarn-excerpt, lodash and the development
  list yarn-html-minifier, mocha, yarn-scaffold the result is exactly yarn-excerpt,
  yarn-html-minifier, yarn-scaffold.
\<close>

theorem resolvePlugins_membership:
  "(N \<in> resolvePlugins P M) =
     ((N \<in> set (dependency_names (dependencies M))
        \<or> N \<in> set (dependency_names (devDependencies M)))
      \<and> prefix P N \<and> length P < length N)
   \<and> P \<notin> resolvePlugins P M
   \<and> getYarnPackageNames
       \<lparr>dependencies = Some [(''yarn-excerpt'', ''*''), (''lodash'', ''*'')],
        devDependencies = Some [(''yarn-html-minifier'', ''*''), (''mocha'', ''*''),
                                (''yarn-scaffold'', ''*'')]\<rparr>
     = {''yarn-excerpt'', ''yarn-html-minifier'', ''yarn-scaffold''}"
proof -
  have 1: "(N \<in> resolvePlugins P M) =
     ((N \<in> set (dependency_names (dependencies M))
        \<or> N \<in> set (dependency_names (devDependencies M)))
      \<and> prefix P N \<and> length P < length N)"
    by (auto simp: resolvePlugins_def matches_convention_def)
  have 2: "P \<notin> resolvePlugins P M"
    by (simp add: resolvePlugins_def matches_convention_def)
  have 3: "getYarnPackageNames
       \<lparr>dependencies = Some [(''yarn-excerpt'', ''*''), (''lodash'', ''*'')],
        devDependencies = Some [(''yarn-html-minifier'', ''*''), (''mocha'', ''*''),
                                (''yarn-scaffold'', ''*'')]\<rparr>
     = {''yarn-excerpt'', ''yarn-html-minifier'', ''yarn-scaffold''}"
    by (simp add: getYarnPackageNames_def resolvePlugins_def matches_convention_def
          dependency_names_def)
  from 1 2 3 show ?thesis by blast
qed

theorem resolvePlugins_membership_witness:
  "''yarn-excerpt'' \<in> resolvePlugins ''yarn-''
      \<lparr>dependencies = Some [(''yarn-excerpt'', ''*''), (''yarn-'', ''*'')],
       devDependencies = None\<rparr>
   \<and> ''yarn-'' \<notin> resolvePlugins ''yarn-''
      \<lparr>dependencies = Some [(''yarn-excerpt'', ''*''), (''yarn-'', ''*'')],
       devDependencies = None\<rparr>"
  using resolvePlugins_membership [where N = "''yarn-excerpt''" and P = "''yarn-''"
      and M = "\<lparr>dependencies = Some [(''yarn-excerpt'', ''*''), (''yarn-'', ''*'')],
                devDependencies = None\<rparr>"]
  by (simp add: dependency_names_def)

section \<open>Properties of the watch command\<close>

subsection \<open>The fields after each operation\<close>

lemma info_sel [simp]:
  "watchers (info m st) = watchers st" "listeners (info m st) = listeners st"
  "pending (info m st) = pending st" "next_id (info m st) = next_id st"
  "trace (info m st) = trace st @ [Info m]"
  by (simp_all add: info_def)

lemma console_log_sel [simp]:
  "watchers (console_log k st) = watchers st" "listeners (console_log k st) = listeners st"
  "pending (console_log k st) = pending st" "next_id (console_log k st) = next_id st"
  "trace (console_log k st) = trace st @ [ConsoleLog k]"
  by (simp_all add: console_log_def)

lemma unhandled_sel [simp]:
  "watchers (unhandled k st) = watchers st" "listeners (unhandled k st) = listeners st"
  "pending (unhandled k st) = pending st" "next_id (unhandled k st) = next_id st"
  "trace (unhandled k st) = trace st @ [Unhandled k]"
  by (simp_all add: unhandled_def)

lemma call_sel [simp]:
  "watchers (call c r st) = watchers st" "listeners (call c r st) = listeners st"
  "pending (call c r st) = pending st @ [(next_id st, c, r)]"
  "next_id (call c r st) = Suc (next_id st)"
  "trace (call c r st) = trace st @ [Called (next_id st) c]"
  by (simp_all add: call_def)

lemma watch_sel [simp]:
  "watchers (watch s ps ig st) = watchers st @ [(s, ps, ig)]"
  "listeners (watch s ps ig st) = listeners st"
  "pending (watch s ps ig st) = pending st" "next_id (watch s ps ig st) = next_id st"
  "trace (watch s ps ig st) = trace st"
  by (simp_all add: watch_def)

lemma on_sel [simp]:
  "watchers (on s ev l st) = watchers st"
  "listeners (on s ev l st) = listeners st @ [(s, ev, l)]"
  "pending (on s ev l st) = pending st" "next_id (on s ev l st) = next_id st"
  "trace (on s ev l st) = trace st"
  by (simp_all add: on_def)

lemma startup_sel:
  "watchers (startup cfg) =
     [(Source, [source cfg], [plugins cfg, themes cfg, destination cfg]), (Theme, [themes cfg], [])]"
  "listeners (startup cfg) = [(Source, ''ready'', SourceReady), (Theme, ''ready'', ThemeReady)]"
  "pending (startup cfg) = [(0, ReadFiles, CatchLogRethrow)]"
  "next_id (startup cfg) = Suc 0"
  "trace (startup cfg) = [Served, TemplateConfigured, Called 0 ReadFiles]"
  by (simp_all add: startup_def Let_def)

lemma run_Nil [simp]: "run st [] = st"
  by (simp add: run_def)

lemma run_Cons [simp]: "run st (i # ins) = run (step i st) ins"
  by (simp add: run_def)

lemma run_snoc: "run st (ins @ [i]) = step i (run st ins)"
  by (simp add: run_def)

lemma watchers_run_listener [simp]: "watchers (run_listener l p st) = watchers st"
  by (cases l) (simp_all add: Let_def)

lemma watchers_fold [simp]: "watchers (fold (\<lambda>l. run_listener l p) ls st) = watchers st"
  by (induction ls arbitrary: st) simp_all

lemma watchers_react [simp]: "watchers (react r k out st) = watchers st"
  by (cases r; cases out) simp_all

lemma listeners_react [simp]: "listeners (react r k out st) = listeners st"
  by (cases r; cases out) simp_all

lemma watchers_settle [simp]: "watchers (settle k out st) = watchers st"
  by (simp add: settle_def split: option.splits)

lemma watchers_emit [simp]: "watchers (emit s ev p st) = watchers st"
  by (simp add: emit_def)

lemma watchers_step [simp]: "watchers (step i st) = watchers st"
  by (cases i) (simp_all add: emit_def settle_def split: option.splits)

lemma listeners_settle [simp]: "listeners (settle k out st) = listeners st"
  by (simp add: settle_def split: option.splits)

lemma watchers_run: "watchers (run st ins) = watchers st"
  by (induction ins arbitrary: st) simp_all

lemma next_id_settle_rejected: "next_id (settle k Rejected st) = next_id st"
proof (cases "map_of (pending st) k")
  case None
  then show ?thesis by (simp add: settle_def)
next
  case (Some e)
  obtain c r where "e = (c, r)" by (cases e)
  with Some show ?thesis by (cases r) (simp_all add: settle_def)
qed

subsection \<open>Which listeners are registered\<close>

lemma sel_append [simp]: "sel s ev (xs @ ys) = sel s ev xs @ sel s ev ys"
  by (simp add: sel_def)

lemma sel_Nil [simp]: "sel s ev [] = []"
  by (simp add: sel_def)

lemma registered_sel: "registered st s ev = sel s ev (listeners st)"
  by (simp add: registered_def sel_def)

lemma ready_count_simps [simp]:
  "ready_count s [] = 0"
  "ready_count s (i # ins) = (if is_ready s i then Suc (ready_count s ins) else ready_count s ins)"
  "ready_count s (ins @ ins') = ready_count s ins + ready_count s ins'"
  by (simp_all add: ready_count_def)

lemma sel_added_ready: "sel s ''ready'' (concat (map added ins)) = []"
proof (induction ins)
  case Nil
  then show ?case by simp
next
  case (Cons i ins)
  then show ?case
  proof (cases i)
    case (Emit s' ev p)
    with Cons show ?thesis by (cases s') (simp_all add: sel_def)
  next
    case (Settle k out)
    with Cons show ?thesis by simp
  qed
qed

lemma sel_added_event:
  "ev \<noteq> ''ready'' \<Longrightarrow>
   sel s ev (concat (map added ins)) =
     (case handler_of s ev of None \<Rightarrow> [] | Some l \<Rightarrow> replicate (ready_count s ins) l)"
proof (induction ins)
  case Nil
  then show ?case by (simp split: option.splits)
next
  case (Cons i ins)
  show ?case
  proof (cases i)
    case (Emit s' ev' p)
    with Cons show ?thesis
      by (cases s'; cases s) (simp_all add: sel_def split: option.splits)
  next
    case (Settle k out)
    with Cons show ?thesis by (simp split: option.splits)
  qed
qed

lemma listeners_nonready:
  "l \<noteq> SourceReady \<Longrightarrow> l \<noteq> ThemeReady \<Longrightarrow> listeners (run_listener l p st) = listeners st"
  by (cases l) (simp_all add: Let_def)

lemma listeners_fold_nonready:
  "SourceReady \<notin> set ls \<Longrightarrow> ThemeReady \<notin> set ls \<Longrightarrow>
   listeners (fold (\<lambda>l. run_listener l p) ls st) = listeners st"
  by (induction ls arbitrary: st) (auto simp: listeners_nonready)

lemma sel_base_ready: "sel s ''ready'' base = [ready_listener s]"
  by (cases s) (simp_all add: sel_def base_def)

lemma sel_base_event: "ev \<noteq> ''ready'' \<Longrightarrow> sel s ev base = []"
  by (simp add: sel_def base_def)

lemma handler_nonready: "handler_of s ev = Some l \<Longrightarrow> l \<noteq> SourceReady \<and> l \<noteq> ThemeReady"
  by (cases s) (auto split: if_splits)

lemma listeners_step:
  assumes "listeners st = base @ concat (map added ins)"
  shows "listeners (step i st) = listeners st @ added i"
proof (cases i)
  case (Settle k out)
  then show ?thesis by simp
next
  case (Emit s ev p)
  show ?thesis
  proof (cases "ev = ''ready''")
    case True
    with assms have "registered st s ev = [ready_listener s]"
      by (simp add: registered_sel sel_base_ready sel_added_ready)
    with Emit True show ?thesis
      by (cases s) (simp_all add: emit_def Let_def)
  next
    case False
    with assms have r: "registered st s ev =
        (case handler_of s ev of None \<Rightarrow> [] | Some l \<Rightarrow> replicate (ready_count s ins) l)"
      by (simp add: registered_sel sel_base_event sel_added_event)
    have "SourceReady \<notin> set (registered st s ev)" "ThemeReady \<notin> set (registered st s ev)"
      unfolding r by (auto split: option.splits dest: handler_nonready handler_nonready [OF sym])
    then have "listeners (emit s ev p st) = listeners st"
      by (simp add: emit_def listeners_fold_nonready)
    with Emit False show ?thesis by (cases s) simp_all
  qed
qed

lemma listeners_reach:
  "listeners (run (startup cfg) ins) = base @ concat (map added ins)"
proof (induction ins rule: rev_induct)
  case Nil
  then show ?case by (simp add: startup_sel base_def)
next
  case (snoc i ins)
  from listeners_step [OF snoc, of i] snoc show ?case
    by (simp add: run_snoc)
qed

lemma registered_ready:
  "registered (run (startup cfg) ins) s ''ready'' = [ready_listener s]"
  by (simp add: registered_sel listeners_reach sel_base_ready sel_added_ready)

lemma registered_event:
  "ev \<noteq> ''ready'' \<Longrightarrow>
   registered (run (startup cfg) ins) s ev =
     (case handler_of s ev of None \<Rightarrow> [] | Some l \<Rightarrow> replicate (ready_count s ins) l)"
  by (simp add: registered_sel listeners_reach sel_base_event sel_added_event)

lemma emit_single:
  assumes "ev \<noteq> ''ready''" "ready_count s ins = 1" "handler_of s ev = Some l"
  shows "step (Emit s ev p) (run (startup cfg) ins) = run_listener l p (run (startup cfg) ins)"
  using assms by (simp add: emit_def registered_event)

lemma emit_nothing:
  assumes "ev \<noteq> ''ready''" "handler_of s ev = None \<or> ready_count s ins = 0"
  shows "step (Emit s ev p) (run (startup cfg) ins) = run (startup cfg) ins"
  using assms by (auto simp: emit_def registered_event split: option.splits)

lemma effects_run_listener:
  "step i st = run_listener l p st \<Longrightarrow>
   effects i st =
     (case l of
        SourceChange \<Rightarrow> [Info (''File changed at: '' @ p), Info ''Rebuilding...'',
                         Called (next_id st) (FileChanged p)]
      | SourceAdd \<Rightarrow> [Info (''File added at: '' @ p), Info ''Rebuilding...'',
                      Called (next_id st) (FileAdded p)]
      | SourceUnlink \<Rightarrow> [Info (''File removed at: '' @ p), Info ''Rebuilding...'',
                         Called (next_id st) (FileRemoved p)]
      | ThemeChange \<Rightarrow> [Info (''Theme file changed at: '' @ p), Info ''Rebuilding...'',
                        Called (next_id st) ReadTheme]
      | _ \<Rightarrow> [])"
  by (cases l) (simp_all add: effects_def Let_def)

subsection \<open>The trace only grows\<close>

lemma trace_run_listener_ext: "\<exists>t. trace (run_listener l p st) = trace st @ t"
  by (cases l) (simp_all add: Let_def)

lemma trace_fold_ext: "\<exists>t. trace (fold (\<lambda>l. run_listener l p) ls st) = trace st @ t"
proof (induction ls arbitrary: st)
  case Nil
  then show ?case by simp
next
  case (Cons l ls)
  from trace_run_listener_ext obtain t1 where t1: "trace (run_listener l p st) = trace st @ t1"
    by blast
  from Cons [of "run_listener l p st"] obtain t2 where
    "trace (fold (\<lambda>l. run_listener l p) ls (run_listener l p st)) = trace (run_listener l p st) @ t2"
    by blast
  with t1 show ?case by simp
qed

lemma trace_react_ext: "\<exists>t. trace (react r k out st) = trace st @ t"
  by (cases r; cases out) simp_all

lemma trace_step_ext: "\<exists>t. trace (step i st) = trace st @ t"
proof (cases i)
  case (Emit s ev p)
  then show ?thesis by (simp add: emit_def trace_fold_ext)
next
  case (Settle k out)
  show ?thesis
  proof (cases "map_of (pending st) k")
    case None
    with Settle show ?thesis by (simp add: settle_def)
  next
    case (Some e)
    obtain c r where e: "e = (c, r)" by (cases e)
    from trace_react_ext [of r k out "st\<lparr>pending := filter (\<lambda>e. fst e \<noteq> k) (pending st),
                trace := trace st @ [Settled k out]\<rparr>"]
    show ?thesis using Settle Some e by (auto simp: settle_def)
  qed
qed

lemma trace_step: "trace (step i st) = trace st @ effects i st"
proof -
  from trace_step_ext obtain t where "trace (step i st) = trace st @ t" by blast
  then show ?thesis by (simp add: effects_def)
qed

subsection \<open>An emission depends on the listeners and the next promise number only\<close>

lemma run_listener_frame:
  assumes "listeners st' = listeners st" "next_id st' = next_id st"
  shows "listeners (run_listener l p st') = listeners (run_listener l p st)
       \<and> next_id (run_listener l p st') = next_id (run_listener l p st)
       \<and> (\<exists>t. trace (run_listener l p st) = trace st @ t
              \<and> trace (run_listener l p st') = trace st' @ t)"
  using assms by (cases l) (simp_all add: Let_def)

lemma fold_frame:
  assumes "listeners st' = listeners st" "next_id st' = next_id st"
  shows "listeners (fold (\<lambda>l. run_listener l p) ls st') = listeners (fold (\<lambda>l. run_listener l p) ls st)
       \<and> next_id (fold (\<lambda>l. run_listener l p) ls st') = next_id (fold (\<lambda>l. run_listener l p) ls st)
       \<and> (\<exists>t. trace (fold (\<lambda>l. run_listener l p) ls st) = trace st @ t
              \<and> trace (fold (\<lambda>l. run_listener l p) ls st') = trace st' @ t)"
  using assms
proof (induction ls arbitrary: st st')
  case Nil
  then show ?case by simp
next
  case (Cons l ls)
  from run_listener_frame [OF Cons.prems, of l p] obtain t1 where
    a: "listeners (run_listener l p st') = listeners (run_listener l p st)"
       "next_id (run_listener l p st') = next_id (run_listener l p st)"
       "trace (run_listener l p st) = trace st @ t1"
       "trace (run_listener l p st') = trace st' @ t1"
    by blast
  from Cons.IH [OF a(1) a(2)] obtain t2 where
    b: "listeners (fold (\<lambda>l. run_listener l p) ls (run_listener l p st'))
          = listeners (fold (\<lambda>l. run_listener l p) ls (run_listener l p st))"
       "next_id (fold (\<lambda>l. run_listener l p) ls (run_listener l p st'))
          = next_id (fold (\<lambda>l. run_listener l p) ls (run_listener l p st))"
       "trace (fold (\<lambda>l. run_listener l p) ls (run_listener l p st)) = trace (run_listener l p st) @ t2"
       "trace (fold (\<lambda>l. run_listener l p) ls (run_listener l p st')) = trace (run_listener l p st') @ t2"
    by blast
  from a b show ?case by simp
qed

lemma emit_frame:
  assumes "listeners st' = listeners st" "next_id st' = next_id st"
  shows "effects (Emit s ev p) st' = effects (Emit s ev p) st"
    and "listeners (step (Emit s ev p) st') = listeners (step (Emit s ev p) st)"
proof -
  from assms have r: "registered st' s ev = registered st s ev"
    by (simp add: registered_def)
  from fold_frame [OF assms, of p "registered st s ev"] obtain t where
    t: "listeners (fold (\<lambda>l. run_listener l p) (registered st s ev) st')
          = listeners (fold (\<lambda>l. run_listener l p) (registered st s ev) st)"
       "trace (fold (\<lambda>l. run_listener l p) (registered st s ev) st) = trace st @ t"
       "trace (fold (\<lambda>l. run_listener l p) (registered st s ev) st') = trace st' @ t"
    by blast
  from t r show "effects (Emit s ev p) st' = effects (Emit s ev p) st"
    by (simp add: effects_def emit_def)
  from t r show "listeners (step (Emit s ev p) st') = listeners (step (Emit s ev p) st)"
    by (simp add: emit_def)
qed

subsection \<open>Pending promises\<close>

lemma effects_settle:
  assumes "map_of (pending st) k = Some (c, r)"
  shows "effects (Settle k out) st =
     Settled k out #
       (case (r, out) of
          (CatchLogRethrow, Rejected) \<Rightarrow> [ConsoleLog k, Unhandled k]
        | (ThenLogDone, Fulfilled) \<Rightarrow> [Info (CHR 0x09 # ''done!'')]
        | (ThenBuild, Fulfilled) \<Rightarrow> [Called (next_id st) Build]
        | (CatchLogRethrow, Fulfilled) \<Rightarrow> []
        | (Returned, Fulfilled) \<Rightarrow> []
        | (_, Rejected) \<Rightarrow> [Unhandled k])"
  using assms by (cases r; cases out) (simp_all add: effects_def settle_def)

lemma map_of_filter_other:
  "k' \<noteq> k \<Longrightarrow> map_of (filter (\<lambda>e. fst e \<noteq> k') xs) k = map_of xs k"
  by (induction xs) auto

lemma pending_run_listener_keeps:
  "map_of (pending st) k = Some e \<Longrightarrow> map_of (pending (run_listener l p st)) k = Some e"
  by (cases l) (simp_all add: Let_def)

lemma pending_fold_keeps:
  "map_of (pending st) k = Some e \<Longrightarrow>
   map_of (pending (fold (\<lambda>l. run_listener l p) ls st)) k = Some e"
  by (induction ls arbitrary: st) (simp_all add: pending_run_listener_keeps)

lemma pending_react_keeps:
  "map_of (pending st) k = Some e \<Longrightarrow> map_of (pending (react r k' out st)) k = Some e"
  by (cases r; cases out) simp_all

lemma pending_step_keeps:
  assumes "map_of (pending st) k = Some e" "\<not> settles k i"
  shows "map_of (pending (step i st)) k = Some e"
proof (cases i)
  case (Emit s ev p)
  with assms show ?thesis by (simp add: emit_def pending_fold_keeps)
next
  case (Settle k' out)
  with assms have ne: "k' \<noteq> k" by simp
  show ?thesis
  proof (cases "map_of (pending st) k'")
    case None
    with Settle assms show ?thesis by (simp add: settle_def)
  next
    case (Some e')
    obtain c r where "e' = (c, r)" by (cases e')
    with Some Settle assms ne show ?thesis
      by (simp add: settle_def pending_react_keeps map_of_filter_other)
  qed
qed

lemma pending_run_keeps:
  "map_of (pending st) k = Some e \<Longrightarrow> \<not> list_ex (settles k) ins \<Longrightarrow>
   map_of (pending (run st ins)) k = Some e"
  by (induction ins arbitrary: st) (simp_all add: pending_step_keeps)

subsection \<open>The invariant of the reachable states\<close>

lemma wf_entry_mono:
  "wf_entry n t e \<Longrightarrow> n \<le> n' \<Longrightarrow> wf_entry n' (t @ t') e"
  by (auto simp: wf_entry_def)

lemma bat_snoc:
  assumes "build_after_theme t" "\<forall>k. x \<noteq> Called k Build"
  shows "build_after_theme (t @ [x])"
  unfolding build_after_theme_def
proof (intro allI impI)
  fix pre k post
  assume eq: "t @ [x] = pre @ Called k Build # post"
  show "\<exists>pre' j. pre = pre' @ [Settled j Fulfilled] \<and> Called j ReadTheme \<in> set pre'"
  proof (cases post rule: rev_cases)
    case Nil
    with eq assms(2) show ?thesis by auto
  next
    case (snoc post' y)
    with eq have "t = pre @ Called k Build # post'" by simp
    with assms(1) show ?thesis unfolding build_after_theme_def by blast
  qed
qed

lemma bat_build:
  assumes "build_after_theme t" "Called j ReadTheme \<in> set t"
  shows "build_after_theme (t @ [Settled j Fulfilled, Called n Build])"
  unfolding build_after_theme_def
proof (intro allI impI)
  fix pre k post
  assume eq: "t @ [Settled j Fulfilled, Called n Build] = pre @ Called k Build # post"
  show "\<exists>pre' j. pre = pre' @ [Settled j Fulfilled] \<and> Called j ReadTheme \<in> set pre'"
  proof (cases post rule: rev_cases)
    case Nil
    with eq have "pre = t @ [Settled j Fulfilled]" by simp
    with assms(2) show ?thesis by blast
  next
    case (snoc post' y)
    note s1 = snoc
    show ?thesis
    proof (cases post' rule: rev_cases)
      case Nil
      with eq s1 show ?thesis by simp
    next
      case (snoc post'' z)
      with eq s1 have "t = pre @ Called k Build # post''" by simp
      with assms(1) show ?thesis unfolding build_after_theme_def by blast
    qed
  qed
qed

lemma good_info: "good st \<Longrightarrow> good (info m st)"
  by (auto simp: good_def bat_snoc intro: wf_entry_mono)

lemma good_unhandled: "good st \<Longrightarrow> good (unhandled k st)"
  by (auto simp: good_def bat_snoc intro: wf_entry_mono)

lemma good_console_log: "good st \<Longrightarrow> good (console_log k st)"
  by (auto simp: good_def bat_snoc intro: wf_entry_mono)

lemma good_on: "good st \<Longrightarrow> good (on s ev l st)"
  by (simp add: good_def)

lemma good_call:
  assumes "good st" "c \<noteq> Build" "c \<noteq> ReadFiles" "r \<noteq> CatchLogRethrow" "r = ThenBuild \<longrightarrow> c = ReadTheme"
  shows "good (call c r st)"
proof -
  from assms(1) have "\<forall>e \<in> set (pending st). wf_entry (Suc (next_id st)) (trace st @ [Called (next_id st) c]) e"
    by (auto simp: good_def intro: wf_entry_mono)
  moreover from assms have "wf_entry (Suc (next_id st)) (trace st @ [Called (next_id st) c]) (next_id st, c, r)"
    by (simp add: wf_entry_def)
  moreover from assms have "build_after_theme (trace st @ [Called (next_id st) c])"
    by (auto simp: good_def intro: bat_snoc)
  ultimately show ?thesis by (simp add: good_def)
qed

lemma good_run_listener: "good st \<Longrightarrow> good (run_listener l p st)"
  by (cases l) (simp_all add: Let_def good_on good_info good_call)

lemma good_fold: "good st \<Longrightarrow> good (fold (\<lambda>l. run_listener l p) ls st)"
  by (induction ls arbitrary: st) (simp_all add: good_run_listener)

lemma good_settle:
  assumes "good st"
  shows "good (settle k out st)"
proof (cases "map_of (pending st) k")
  case None
  with assms show ?thesis by (simp add: settle_def)
next
  case (Some e)
  obtain c r where e: "e = (c, r)" by (cases e)
  from Some e have mem: "(k, c, r) \<in> set (pending st)"
    by (simp add: map_of_SomeD)
  with assms have wf: "wf_entry (next_id st) (trace st) (k, c, r)"
    by (auto simp: good_def)
  let ?st1 = "st\<lparr>pending := filter (\<lambda>e. fst e \<noteq> k) (pending st),
                  trace := trace st @ [Settled k out]\<rparr>"
  from assms have g1: "good ?st1"
    by (auto simp: good_def bat_snoc intro: wf_entry_mono)
  have "good (react r k out ?st1)"
  proof (cases "r = ThenBuild \<and> out = Fulfilled")
    case True
    with wf have c: "c = ReadTheme" "Called k ReadTheme \<in> set (trace st)"
      by (auto simp: wf_entry_def)
    from assms have "\<forall>e \<in> set (pending ?st1).
        wf_entry (Suc (next_id st)) (trace st @ [Settled k Fulfilled, Called (next_id st) Build]) e"
      by (auto simp: good_def intro: wf_entry_mono)
    moreover have "wf_entry (Suc (next_id st))
        (trace st @ [Settled k Fulfilled, Called (next_id st) Build]) (next_id st, Build, Returned)"
      by (simp add: wf_entry_def)
    moreover from assms c have
      "build_after_theme (trace st @ [Settled k Fulfilled, Called (next_id st) Build])"
      by (simp add: good_def bat_build)
    ultimately show ?thesis using True
      by (simp add: good_def)
  next
    case False
    with g1 show ?thesis
      by (cases r; cases out) (simp_all add: good_info good_unhandled good_console_log)
  qed
  with Some e show ?thesis by (simp add: settle_def)
qed

lemma good_step: "good st \<Longrightarrow> good (step i st)"
  by (cases i) (simp_all add: emit_def good_fold good_settle)

lemma good_startup: "good (startup cfg)"
proof -
  have "build_after_theme [Served, TemplateConfigured, Called 0 ReadFiles]"
    by (auto simp: build_after_theme_def Cons_eq_append_conv)
  then show ?thesis
    by (simp add: good_def startup_sel wf_entry_def)
qed

lemma good_run: "good st \<Longrightarrow> good (run st ins)"
  by (induction ins arbitrary: st) (simp_all add: good_step)

lemma good_reach: "good (run (startup cfg) ins)"
  by (simp add: good_run good_startup)

lemma fresh_next_id:
  assumes "good st"
  shows "map_of (pending st) (next_id st) = None"
proof (cases "map_of (pending st) (next_id st)")
  case None then show ?thesis .
next
  case (Some e)
  then have "(next_id st, e) \<in> set (pending st)" by (rule map_of_SomeD)
  with assms have "wf_entry (next_id st) (trace st) (next_id st, e)"
    by (auto simp: good_def)
  then show ?thesis by (simp add: wf_entry_def)
qed

subsection \<open>Concrete runs\<close>

lemmas eval_defs =
  run_def startup_def emit_def registered_def settle_def call_def info_def on_def
  watch_def unhandled_def console_log_def Let_def effects_def invoked_def example_config_def
  ready_count_def

subsection \<open>The claims about the watch command\<close>

text \<open>
  C1, as amended. Once the theme watcher has emitted \<open>ready\<close> (once), every
  \<open>change\<close> event on it calls \<open>readTheme\<close> and nothing else; the promise it
  returned stays pending with the callback that builds, so whenever it is fulfilled
  later \<open>build\<close> is called, and when it is rejected nothing is called. An event of
  any other name (\<open>add\<close>, \<open>unlink\<close>, \<open>addDir\<close>, \<open>unlinkDir\<close>, ...) on the
  theme watcher changes nothing: no listener is registered for it.
\<close>

theorem theme_change_reload_then_build:
  assumes rdy: "ready_count Theme ins = 1" and st: "st = run (startup cfg) ins"
  shows "invoked (Emit Theme ''change'' p) st = [ReadTheme]
       \<and> map_of (pending (step (Emit Theme ''change'' p) st)) (next_id st)
           = Some (ReadTheme, ThenBuild)
       \<and> (\<not> list_ex (settles (next_id st)) ins' \<longrightarrow>
            invoked (Settle (next_id st) Fulfilled)
              (run (step (Emit Theme ''change'' p) st) ins') = [Build]
            \<and> invoked (Settle (next_id st) Rejected)
              (run (step (Emit Theme ''change'' p) st) ins') = [])
       \<and> (ev \<noteq> ''change'' \<and> ev \<noteq> ''ready'' \<longrightarrow> step (Emit Theme ev p) st = st)"
proof -
  have c: "step (Emit Theme ''change'' p) st = run_listener ThemeChange p st"
    unfolding st by (rule emit_single) (use rdy in simp_all)
  have 1: "invoked (Emit Theme ''change'' p) st = [ReadTheme]"
    by (simp add: invoked_def effects_run_listener [OF c])
  have g: "good st" unfolding st by (rule good_reach)
  have 2: "map_of (pending (step (Emit Theme ''change'' p) st)) (next_id st)
           = Some (ReadTheme, ThenBuild)"
    unfolding c using fresh_next_id [OF g] by (simp add: Let_def map_add_def)
  have 3: "invoked (Settle (next_id st) Fulfilled)
              (run (step (Emit Theme ''change'' p) st) ins') = [Build]
            \<and> invoked (Settle (next_id st) Rejected)
              (run (step (Emit Theme ''change'' p) st) ins') = []"
    if "\<not> list_ex (settles (next_id st)) ins'"
  proof -
    from pending_run_keeps [OF 2 that]
    have q: "map_of (pending (run (step (Emit Theme ''change'' p) st) ins')) (next_id st)
           = Some (ReadTheme, ThenBuild)" .
    from effects_settle [OF q, of Fulfilled] effects_settle [OF q, of Rejected]
    show ?thesis
      by (simp add: invoked_def)
  qed
  have 4: "step (Emit Theme ev p) st = st" if "ev \<noteq> ''change'' \<and> ev \<noteq> ''ready''"
    unfolding st by (rule emit_nothing) (use that in simp_all)
  from 1 2 3 4 show ?thesis by blast
qed

theorem theme_change_reload_then_build_witness:
  "ready_count Theme [Emit Theme ''ready'' []] = 1
   \<and> invoked (Emit Theme ''change'' ''/proj/src/_themes/one/page.html'')
       (run (startup example_config) [Emit Theme ''ready'' []]) = [ReadTheme]
   \<and> invoked (Settle 1 Fulfilled)
       (run (step (Emit Theme ''change'' ''/proj/src/_themes/one/page.html'')
               (run (startup example_config) [Emit Theme ''ready'' []]))
          [Emit Source ''ready'' [], Settle 0 Fulfilled]) = [Build]
   \<and> step (Emit Theme ''unlink'' ''/proj/src/_themes/one/page.html'')
       (run (startup example_config) [Emit Theme ''ready'' []])
     = run (startup example_config) [Emit Theme ''ready'' []]"
proof -
  have r: "ready_count Theme [Emit Theme ''ready'' []] = 1"
    by (simp add: ready_count_def)
  have n: "next_id (run (startup example_config) [Emit Theme ''ready'' []]) = 1"
    by (simp add: eval_defs)
  have s: "\<not> list_ex (settles 1) [Emit Source ''ready'' [], Settle 0 Fulfilled]"
    by simp
  have e: "''unlink'' \<noteq> ''change'' \<and> ''unlink'' \<noteq> ''ready''" by simp
  from theme_change_reload_then_build [OF r refl,
      where cfg = example_config and p = "''/proj/src/_themes/one/page.html''"
        and ins' = "[Emit Source ''ready'' [], Settle 0 Fulfilled]" and ev = "''unlink''"]
    r n s e
  show ?thesis by simp
qed

text \<open>
  C1 as stated fails: after \<open>ready\<close>, an \<open>add\<close> event on the theme
  watcher calls no method of the site.
\<close>

theorem theme_add_ignored_counterexample:
  "invoked (Emit Theme ''add'' ''/proj/src/_themes/one/new.html'')
     (run (startup example_config) [Emit Theme ''ready'' []]) = []"
  by (simp add: eval_defs)

text \<open>
  C2, as amended. \<open>module.exports\<close> starts \<open>readFiles\<close> without waiting for it:
  when it returns, both watchers exist and each has its \<open>ready\<close> listener. When the
  promise of \<open>readFiles\<close> is rejected later (after any inputs that do not settle
  it), the error is logged and thrown again, which no handler receives; no method of
  the site is called again, and the watchers and the listeners stay as they are.
\<close>

theorem readFiles_failure_sessions_open:
  assumes ns: "\<not> list_ex (settles 0) ins" and st: "st = run (startup cfg) ins"
  shows "watchers (startup cfg) =
           [(Source, [source cfg], [plugins cfg, themes cfg, destination cfg]),
            (Theme, [themes cfg], [])]
       \<and> listeners (startup cfg) = [(Source, ''ready'', SourceReady), (Theme, ''ready'', ThemeReady)]
       \<and> effects (Settle 0 Rejected) st = [Settled 0 Rejected, ConsoleLog 0, Unhandled 0]
       \<and> watchers (step (Settle 0 Rejected) st) = watchers (startup cfg)
       \<and> listeners (step (Settle 0 Rejected) st) = listeners st"
proof -
  have "map_of (pending (startup cfg)) 0 = Some (ReadFiles, CatchLogRethrow)"
    by (simp add: startup_sel)
  from pending_run_keeps [OF this ns] st
  have q: "map_of (pending st) 0 = Some (ReadFiles, CatchLogRethrow)" by simp
  have "effects (Settle 0 Rejected) st = [Settled 0 Rejected, ConsoleLog 0, Unhandled 0]"
    by (simp add: effects_settle [OF q])
  moreover have "watchers (step (Settle 0 Rejected) st) = watchers (startup cfg)"
    unfolding st by (simp only: watchers_step watchers_run)
  ultimately show ?thesis by (simp add: startup_sel)
qed

theorem readFiles_failure_sessions_open_witness:
  "\<not> list_ex (settles 0) [Emit Source ''ready'' []]
   \<and> effects (Settle 0 Rejected) (run (startup example_config) [Emit Source ''ready'' []])
       = [Settled 0 Rejected, ConsoleLog 0, Unhandled 0]
   \<and> watchers (step (Settle 0 Rejected) (run (startup example_config) [Emit Source ''ready'' []]))
       = [(Source, [''/proj/src''], [''/proj/src/_plugins'', ''/proj/src/_themes'', ''/proj/src/_site'']),
          (Theme, [''/proj/src/_themes''], [])]"
proof -
  have s: "\<not> list_ex (settles 0) [Emit Source ''ready'' []]" by simp
  from readFiles_failure_sessions_open [OF s refl, where cfg = example_config] s
  show ?thesis by (simp add: example_config_def)
qed

text \<open>
  C2 as stated fails: after the rejection of \<open>readFiles\<close> both watchers and
  their \<open>ready\<close> listeners are there, and after \<open>ready\<close> an \<open>add\<close> event is
  dispatched.
\<close>

theorem readFiles_failure_counterexample:
  "effects (Settle 0 Rejected) (startup example_config)
     = [Settled 0 Rejected, ConsoleLog 0, Unhandled 0]
   \<and> watchers (run (startup example_config) [Settle 0 Rejected])
     = [(Source, [''/proj/src''], [''/proj/src/_plugins'', ''/proj/src/_themes'', ''/proj/src/_site'']),
        (Theme, [''/proj/src/_themes''], [])]
   \<and> listeners (run (startup example_config) [Settle 0 Rejected])
     = [(Source, ''ready'', SourceReady), (Theme, ''ready'', ThemeReady)]
   \<and> invoked (Emit Source ''add'' ''/proj/src/a.md'')
       (run (startup example_config) [Settle 0 Rejected, Emit Source ''ready'' []])
     = [FileAdded ''/proj/src/a.md'']"
  by (simp add: eval_defs)

text \<open>
  C3. In every trace of the command, a call of \<open>build\<close> stands right after the
  fulfilment of a promise that an earlier call of \<open>readTheme\<close> returned: \<open>build\<close>
  never starts before \<open>readTheme\<close> has settled.
\<close>

theorem build_only_after_readTheme:
  assumes "trace (run (startup cfg) ins) = pre @ Called k Build # post"
  shows "\<exists>pre' j. pre = pre' @ [Settled j Fulfilled] \<and> Called j ReadTheme \<in> set pre'"
proof -
  have "build_after_theme (trace (run (startup cfg) ins))"
    using good_reach [of cfg ins] by (simp add: good_def)
  with assms show ?thesis
    unfolding build_after_theme_def by blast
qed

theorem build_only_after_readTheme_witness:
  "trace (run (startup example_config)
      [Emit Theme ''ready'' [], Emit Theme ''change'' ''/proj/src/_themes/one/page.html'',
       Settle 1 Fulfilled])
   = [Served, TemplateConfigured, Called 0 ReadFiles,
      Info ''Theme file changed at: /proj/src/_themes/one/page.html'', Info ''Rebuilding...'',
      Called 1 ReadTheme, Settled 1 Fulfilled] @ Called 2 Build # []
   \<and> (\<exists>pre' j.
        [Served, TemplateConfigured, Called 0 ReadFiles,
         Info ''Theme file changed at: /proj/src/_themes/one/page.html'', Info ''Rebuilding...'',
         Called 1 ReadTheme, Settled 1 Fulfilled] = pre' @ [Settled j Fulfilled]
        \<and> Called j ReadTheme \<in> set pre')"
proof -
  have t: "trace (run (startup example_config)
      [Emit Theme ''ready'' [], Emit Theme ''change'' ''/proj/src/_themes/one/page.html'',
       Settle 1 Fulfilled])
   = [Served, TemplateConfigured, Called 0 ReadFiles,
      Info ''Theme file changed at: /proj/src/_themes/one/page.html'', Info ''Rebuilding...'',
      Called 1 ReadTheme, Settled 1 Fulfilled] @ Called 2 Build # []"
    by (simp add: eval_defs)
  from build_only_after_readTheme [OF t] t show ?thesis by blast
qed



text \<open>
  C7. For each of the two watchers: as long as it has not emitted \<open>ready\<close>, no
  listener is registered on it for any other event, and an event it emits (such as
  \<open>add\<close> for a file found by the initial scan) changes nothing.
\<close>

theorem no_handler_before_ready:
  assumes "ready_count s ins = 0" "ev \<noteq> ''ready''"
  shows "registered (run (startup cfg) ins) s ev = []
       \<and> step (Emit s ev p) (run (startup cfg) ins) = run (startup cfg) ins"
proof -
  from assms have "registered (run (startup cfg) ins) s ev = []"
    by (simp add: registered_event split: option.splits)
  moreover have "step (Emit s ev p) (run (startup cfg) ins) = run (startup cfg) ins"
    by (rule emit_nothing) (use assms in simp_all)
  ultimately show ?thesis by simp
qed

theorem no_handler_before_ready_witness:
  "ready_count Theme [Emit Source ''ready'' [], Settle 0 Fulfilled] = 0
   \<and> registered (run (startup example_config) [Emit Source ''ready'' [], Settle 0 Fulfilled])
       Theme ''change'' = []
   \<and> step (Emit Theme ''change'' ''/proj/src/_themes/one/page.html'')
       (run (startup example_config) [Emit Source ''ready'' [], Settle 0 Fulfilled])
     = run (startup example_config) [Emit Source ''ready'' [], Settle 0 Fulfilled]"
proof -
  have r: "ready_count Theme [Emit Source ''ready'' [], Settle 0 Fulfilled] = 0"
    by (simp add: ready_count_def)
  have e: "''change'' \<noteq> ''ready''" by simp
  from no_handler_before_ready [OF r e, where cfg = example_config
      and p = "''/proj/src/_themes/one/page.html''"] r
  show ?thesis by simp
qed

text \<open>
  C8. When the promise of an action started by an event (any call but
  \<open>readFiles\<close>) is rejected, the rejection reaches no handler and no method of the
  site is called again; the watchers and the listeners stay as they are, and an event
  of any name on either watcher, for any path, has the same effects after the rejection
  as it would have had without it.
\<close>

theorem action_failure_keeps_watching:
  assumes st: "st = run (startup cfg) ins"
    and pend: "map_of (pending st) k = Some (c, r)"
    and act: "c \<noteq> ReadFiles"
  shows "effects (Settle k Rejected) st = [Settled k Rejected, Unhandled k]
       \<and> watchers (step (Settle k Rejected) st) = watchers st
       \<and> listeners (step (Settle k Rejected) st) = listeners st
       \<and> effects (Emit s ev p) (step (Settle k Rejected) st) = effects (Emit s ev p) st
       \<and> listeners (step (Emit s ev p) (step (Settle k Rejected) st))
           = listeners (step (Emit s ev p) st)"
proof -
  from pend have "(k, c, r) \<in> set (pending st)" by (rule map_of_SomeD)
  with good_reach [of cfg ins] st have "wf_entry (next_id st) (trace st) (k, c, r)"
    by (auto simp: good_def)
  with act have r: "r \<noteq> CatchLogRethrow" by (auto simp: wf_entry_def)
  from effects_settle [OF pend, of Rejected] r
  have e: "effects (Settle k Rejected) st = [Settled k Rejected, Unhandled k]"
    by (cases r) simp_all
  have l: "listeners (step (Settle k Rejected) st) = listeners st"
    and n: "next_id (step (Settle k Rejected) st) = next_id st"
    by (simp_all add: next_id_settle_rejected)
  from e l emit_frame [OF l n] show ?thesis by simp
qed

theorem action_failure_keeps_watching_witness:
  "map_of (pending (run (startup example_config)
       [Emit Source ''ready'' [], Emit Source ''change'' ''/proj/src/a.md''])) 1
     = Some (FileChanged ''/proj/src/a.md'', ThenLogDone)
   \<and> effects (Settle 1 Rejected) (run (startup example_config)
       [Emit Source ''ready'' [], Emit Source ''change'' ''/proj/src/a.md''])
     = [Settled 1 Rejected, Unhandled 1]
   \<and> invoked (Emit Source ''add'' ''/proj/src/b.md'')
       (step (Settle 1 Rejected) (run (startup example_config)
          [Emit Source ''ready'' [], Emit Source ''change'' ''/proj/src/a.md'']))
     = [FileAdded ''/proj/src/b.md'']"
proof -
  let ?st = "run (startup example_config)
       [Emit Source ''ready'' [], Emit Source ''change'' ''/proj/src/a.md'']"
  have p: "map_of (pending ?st) 1 = Some (FileChanged ''/proj/src/a.md'', ThenLogDone)"
    by (simp add: eval_defs)
  have a: "FileChanged ''/proj/src/a.md'' \<noteq> ReadFiles" by simp
  have i: "invoked (Emit Source ''add'' ''/proj/src/b.md'') ?st = [FileAdded ''/proj/src/b.md'']"
    by (simp add: eval_defs)
  from action_failure_keeps_watching [OF refl p a,
      where s = Source and ev = "''add''" and p = "''/proj/src/b.md''"] p i
  show ?thesis by (simp add: invoked_def)
qed

section \<open>Properties of the ignore rule\<close>

text \<open>
  C5. A path is ignored exactly when it is equal to an ignored root or continues one
  after a path separator. The source watcher is created with the plugins, themes and
  destination directories as ignored roots: an event of any name for a path under one
  of them is discarded and the state stays the same, any other event is emitted to the
  listeners. \<open>/proj/src/theme/file.txt\<close> is under the ignored root
  \<open>/proj/src/theme\<close>, \<open>/proj/src/theme-extra/file.txt\<close> is not.
\<close>

theorem ignored_path_never_dispatched:
  "is_ignored roots p = (\<exists>root \<in> set roots. p = root \<or> (\<exists>rest. p = root @ ''/'' @ rest))
   \<and> (is_ignored [plugins cfg, themes cfg, destination cfg] p \<longrightarrow>
        deliver Source ev p (run (startup cfg) ins) = run (startup cfg) ins)
   \<and> (\<not> is_ignored [plugins cfg, themes cfg, destination cfg] p \<longrightarrow>
        deliver Source ev p (run (startup cfg) ins) = emit Source ev p (run (startup cfg) ins))
   \<and> is_ignored [''/proj/src/theme''] ''/proj/src/theme/file.txt''
   \<and> \<not> is_ignored [''/proj/src/theme''] ''/proj/src/theme-extra/file.txt''"
proof -
  have 1: "is_ignored roots p = (\<exists>root \<in> set roots. p = root \<or> (\<exists>rest. p = root @ ''/'' @ rest))"
    by (auto simp: is_ignored_def nested_under_def list_ex_iff prefix_def)
  have w: "map_of (watchers (run (startup cfg) ins)) Source
             = Some ([source cfg], [plugins cfg, themes cfg, destination cfg])"
    by (simp add: watchers_run startup_sel)
  have 2: "is_ignored [plugins cfg, themes cfg, destination cfg] p \<longrightarrow>
        deliver Source ev p (run (startup cfg) ins) = run (startup cfg) ins"
    by (simp add: deliver_def w)
  have 3: "\<not> is_ignored [plugins cfg, themes cfg, destination cfg] p \<longrightarrow>
        deliver Source ev p (run (startup cfg) ins) = emit Source ev p (run (startup cfg) ins)"
    by (simp add: deliver_def w)
  have 4: "is_ignored [''/proj/src/theme''] ''/proj/src/theme/file.txt''"
    by (simp add: is_ignored_def nested_under_def)
  have 5: "\<not> is_ignored [''/proj/src/theme''] ''/proj/src/theme-extra/file.txt''"
    by (simp add: is_ignored_def nested_under_def)
  from 1 2 3 4 5 show ?thesis by blast
qed

theorem ignored_path_never_dispatched_witness:
  "is_ignored [plugins example_config, themes example_config, destination example_config]
     ''/proj/src/_site/index.html''
   \<and> deliver Source ''add'' ''/proj/src/_site/index.html''
       (run (startup example_config) [Emit Source ''ready'' []])
     = run (startup example_config) [Emit Source ''ready'' []]
   \<and> \<not> is_ignored [plugins example_config, themes example_config, destination example_config]
       ''/proj/src/_site-notes/index.html''
   \<and> invoked (Emit Source ''add'' ''/proj/src/_site-notes/index.html'')
       (run (startup example_config) [Emit Source ''ready'' []])
     = [FileAdded ''/proj/src/_site-notes/index.html'']"
proof -
  have i: "is_ignored [plugins example_config, themes example_config, destination example_config]
     ''/proj/src/_site/index.html''"
    by (simp add: is_ignored_def nested_under_def example_config_def)
  have n: "\<not> is_ignored [plugins example_config, themes example_config, destination example_config]
       ''/proj/src/_site-notes/index.html''"
    by (simp add: is_ignored_def nested_under_def example_config_def)
  have a: "invoked (Emit Source ''add'' ''/proj/src/_site-notes/index.html'')
       (run (startup example_config) [Emit Source ''ready'' []])
     = [FileAdded ''/proj/src/_site-notes/index.html'']"
    by (simp add: eval_defs)
  from ignored_path_never_dispatched [where cfg = example_config
      and p = "''/proj/src/_site/index.html''" and ev = "''add''"
      and ins = "[Emit Source ''ready'' []]"] i n a
  show ?thesis by blast
qed

end
